theory Spec2Isabelle
  imports Main
begin

section \<open>Deadman's Tip: the game-state engine of src/index.ts\<close>

text \<open>
  The bot keeps one \<open>GameState\<close> per channel in the module-level map \<open>games\<close> and mutates
  it from the tip handler and the slash-command handlers. The model passes that state
  explicitly: a handler takes the \<open>World\<close> (the two module-level maps) and returns what it
  sent together with the new \<open>World\<close>. A handler is run to completion (no interleaving at
  its \<open>await\<close> points); \<open>sendMessage\<close> and the image rendering are taken to succeed. The
  draw \<open>Math.random() < 0.5\<close> is an argument of the shoot handler.

  JavaScript object references are modelled as positions in \<open>game.players\<close>: every player
  object is created once by \<open>push\<close> and never moved, so the position names the object, and
  a write through a reference (\<open>currentPlayer.alive = false\<close>) is a list update there.
\<close>

subsection \<open>Data model\<close>

datatype action = Shoot | Pass

datatype status = Waiting | Active | Finished

record Player =
  userId :: string
  smartAccountAddress :: string
  alive :: bool
  lastAction :: "action option"

text \<open>\<open>potBalance\<close> is a bigint (unbounded); \<open>currentTurnIndex\<close> is a JavaScript number
  that the program only ever sets to integer values, modelled as \<open>int\<close>.\<close>

record GameState =
  players :: "Player list"
  potBalance :: int
  currentTurnIndex :: int
  status :: status
  winner :: "string option"

record TipEvent =
  receiverAddress :: string
  channelId :: string
  senderAddress :: string
  senderUserId :: string
  amount :: int

record World =
  games :: "string \<rightharpoonup> GameState"
  eligiblePlayers :: "string \<rightharpoonup> (string \<times> string)"

text \<open>The texts handed to \<open>sendMessage\<close>, one constructor per template string, carrying the
  values the template interpolates.\<close>

datatype message =
    TipGameAlready status
  | AlreadyInGame string
  | Joined string int nat int
  | JoinInfo
  | NoGameInProgress
  | StartGameAlready status
  | NeedTwoPlayers nat
  | GameStarted GameState string
  | NoActiveGame
  | GameErrorNoCurrent
  | NotYourTurn string
  | AlreadyEliminated
  | Bang string nat int
  | GameOver string int GameState
  | YourTurn string
  | Click string int
  | CannotPass
  | Passed string int int
  | EveryoneChickened string
  | NoGameStatus
  | StatusReport GameState
  | HelpText

text \<open>A handler either returns after sending its messages or dies with the \<open>TypeError\<close> of
  reading a property of \<open>null\<close>.\<close>

datatype outcome = Sent "message list" | TypeError

subsection \<open>Constants and built-ins\<close>

text \<open>\<open>parseEther('0.0005')\<close> and \<open>parseEther('0.001')\<close>, in wei.\<close>

definition PASS_BURN :: int where
  "PASS_BURN = 500000000000000"

definition GRIT_BONUS :: int where
  "GRIT_BONUS = 1000000000000000"

text \<open>\<open>String.prototype.toLowerCase\<close> on ASCII strings: the letters A to Z are mapped to
  a to z, every other character is kept. Identities and addresses are taken to be ASCII;
  on a string with a cased letter outside ASCII JavaScript lower-cases that letter too, and
  this definition does not. No proof below unfolds it, except to evaluate it on the sample
  inputs.\<close>

definition lowerChar :: "char \<Rightarrow> char" where
  "lowerChar c =
     (let n = (of_char c :: nat) in if 65 \<le> n \<and> n \<le> 90 then char_of (n + 32) else c)"

definition toLowerCase :: "string \<Rightarrow> string" where
  "toLowerCase s = map lowerChar s"

text \<open>The remainder operator \<open>%\<close> on integers with a positive divisor: the result has the
  sign of the dividend.\<close>

definition jsRem :: "int \<Rightarrow> int \<Rightarrow> int" where
  "jsRem a n = (if a < 0 then - ((- a) mod n) else a mod n)"

subsection \<open>Helpers\<close>

text \<open>\<open>game.players.filter(p => p.alive)\<close>: the references to the alive players, in
  enrollment order.\<close>

definition getAlivePlayers :: "GameState \<Rightarrow> nat list" where
  "getAlivePlayers game =
     filter (\<lambda>i. alive (players game ! i)) [0..<length (players game)]"

text \<open>\<open>alive[index]\<close> is \<open>undefined\<close> outside the array; the callers test the result with
  \<open>!currentPlayer\<close>, which \<open>undefined\<close> satisfies like \<open>null\<close>.\<close>

definition getCurrentPlayer :: "GameState \<Rightarrow> nat option" where
  "getCurrentPlayer game =
     (let al = getAlivePlayers game in
      if length al = 0 then None
      else
        let index = jsRem (currentTurnIndex game) (int (length al)) in
        if 0 \<le> index \<and> index < int (length al) then Some (al ! nat index) else None)"

definition checkForcedShoot :: "GameState \<Rightarrow> bool" where
  "checkForcedShoot game =
     (let al = getAlivePlayers game in
      if length al < 2 then False
      else list_all (\<lambda>i. lastAction (players game ! i) = Some Pass) al)"

definition advanceTurn :: "GameState \<Rightarrow> GameState" where
  "advanceTurn game =
     (let al = getAlivePlayers game in
      if length al > 0
      then game\<lparr>currentTurnIndex := jsRem (currentTurnIndex game + 1) (int (length al))\<rparr>
      else game)"

definition checkWinCondition :: "GameState \<Rightarrow> string option" where
  "checkWinCondition game =
     (let al = getAlivePlayers game in
      if length al = 1 then Some (userId (players game ! (al ! 0))) else None)"

text \<open>A write through a player reference.\<close>

definition updatePlayer :: "nat \<Rightarrow> (Player \<Rightarrow> Player) \<Rightarrow> GameState \<Rightarrow> GameState" where
  "updatePlayer i f game = game\<lparr>players := (players game)[i := f (players game ! i)]\<rparr>"

text \<open>\<open>getAlivePlayers(game).forEach(p => p.lastAction = null)\<close>.\<close>

definition resetLastActions :: "GameState \<Rightarrow> GameState" where
  "resetLastActions game =
     game\<lparr>players := map (\<lambda>p. if alive p then p\<lparr>lastAction := None\<rparr> else p) (players game)\<rparr>"

text \<open>The message to the next player, sent only \<open>if (nextPlayer)\<close>.\<close>

definition nextTurnMessage :: "GameState \<Rightarrow> message list" where
  "nextTurnMessage game =
     (case getCurrentPlayer game of
        None \<Rightarrow> []
      | Some np \<Rightarrow> [YourTurn (userId (players game ! np))])"

subsection \<open>Handlers\<close>

definition newGame :: GameState where
  "newGame = \<lparr>players = [], potBalance = 0, currentTurnIndex = 0, status = Waiting,
              winner = None\<rparr>"

definition emptyWorld :: World where
  "emptyWorld = \<lparr>games = Map.empty, eligiblePlayers = Map.empty\<rparr>"

definition samePlayer :: "TipEvent \<Rightarrow> Player \<Rightarrow> bool" where
  "samePlayer event p \<longleftrightarrow>
     toLowerCase (smartAccountAddress p) = toLowerCase (senderAddress event)
     \<or> userId p = senderUserId event"

text \<open>\<open>games.get(channelId)\<close>, creating and storing a fresh game when there is none.\<close>

definition resolveGame :: "World \<Rightarrow> string \<Rightarrow> GameState" where
  "resolveGame w channel = (case games w channel of None \<Rightarrow> newGame | Some game \<Rightarrow> game)"

definition onTip :: "string \<Rightarrow> World \<Rightarrow> TipEvent \<Rightarrow> outcome \<times> World" where
  "onTip botId w event =
     (if toLowerCase (receiverAddress event) \<noteq> toLowerCase botId then (Sent [], w)
      else
        let channel = channelId event;
            game = resolveGame w channel;
            w1 = w\<lparr>games := (games w)(channel \<mapsto> game)\<rparr>
        in
        if status game \<noteq> Waiting then (Sent [TipGameAlready (status game)], w1)
        else
          let w2 = w1\<lparr>eligiblePlayers :=
                      (eligiblePlayers w1)(toLowerCase (senderAddress event) \<mapsto>
                         (senderUserId event, channel))\<rparr>
          in
          case find (samePlayer event) (players game) of
            Some existingPlayer \<Rightarrow> (Sent [AlreadyInGame (senderUserId event)], w2)
          | None \<Rightarrow>
              let game' = game\<lparr>players := players game @
                                  [\<lparr>userId = senderUserId event,
                                    smartAccountAddress = senderAddress event,
                                    alive = True, lastAction = None\<rparr>],
                                potBalance := potBalance game + amount event\<rparr>
              in (Sent [Joined (senderUserId event) (amount event)
                          (length (players game')) (potBalance game')],
                  w2\<lparr>games := (games w2)(channel \<mapsto> game')\<rparr>))"

definition joinGame :: "World \<Rightarrow> string \<Rightarrow> string \<Rightarrow> outcome \<times> World" where
  "joinGame w channel user = (Sent [JoinInfo], w)"

text \<open>\<open>getCurrentPlayer(game)!\<close> is only a type assertion: with no alive player the read of
  \<open>currentPlayer.userId\<close> throws, after the two assignments.\<close>

definition startGame :: "World \<Rightarrow> string \<Rightarrow> string \<Rightarrow> outcome \<times> World" where
  "startGame w channel user =
     (case games w channel of
        None \<Rightarrow> (Sent [NoGameInProgress], w)
      | Some game \<Rightarrow>
          if status game \<noteq> Waiting then (Sent [StartGameAlready (status game)], w)
          else if length (players game) < 2
          then (Sent [NeedTwoPlayers (length (players game))], w)
          else
            let game' = game\<lparr>status := Active, currentTurnIndex := 0\<rparr>;
                w' = w\<lparr>games := (games w)(channel \<mapsto> game')\<rparr>
            in
            case getCurrentPlayer game' of
              None \<Rightarrow> (TypeError, w')
            | Some cp \<Rightarrow> (Sent [GameStarted game' (userId (players game' ! cp))], w'))"

text \<open>\<open>isDead\<close> is the draw \<open>Math.random() < 0.5\<close>. \<open>if (winner)\<close> tests a
  \<open>string | null\<close> for truthiness: \<open>null\<close> and the empty string fail it.\<close>

definition shoot :: "World \<Rightarrow> string \<Rightarrow> string \<Rightarrow> bool \<Rightarrow> outcome \<times> World" where
  "shoot w channel user isDead =
     (case games w channel of
        None \<Rightarrow> (Sent [NoActiveGame], w)
      | Some game \<Rightarrow>
          if status game \<noteq> Active then (Sent [NoActiveGame], w)
          else
            case getCurrentPlayer game of
              None \<Rightarrow> (Sent [GameErrorNoCurrent], w)
            | Some cp \<Rightarrow>
                if toLowerCase (userId (players game ! cp)) \<noteq> toLowerCase user
                then (Sent [NotYourTurn (userId (players game ! cp))], w)
                else if \<not> alive (players game ! cp) then (Sent [AlreadyEliminated], w)
                else
                  let g1 = updatePlayer cp (\<lambda>p. p\<lparr>lastAction := Some Shoot\<rparr>) game;
                      g2 = resetLastActions g1
                  in
                  if isDead then
                    let g3 = updatePlayer cp (\<lambda>p. p\<lparr>alive := False\<rparr>) g2;
                        aliveCount = length (getAlivePlayers g3);
                        bang = Bang user aliveCount (potBalance g3)
                    in
                    case checkWinCondition g3 of
                      Some win \<Rightarrow>
                        if win \<noteq> [] then
                          let g4 = g3\<lparr>status := Finished, winner := Some win\<rparr>
                          in (Sent [bang, GameOver win (potBalance g4) g4],
                              w\<lparr>games := (games w)(channel := None)\<rparr>)
                        else
                          let g4 = advanceTurn g3
                          in (Sent (bang # nextTurnMessage g4),
                              w\<lparr>games := (games w)(channel \<mapsto> g4)\<rparr>)
                    | None \<Rightarrow>
                        let g4 = advanceTurn g3
                        in (Sent (bang # nextTurnMessage g4),
                            w\<lparr>games := (games w)(channel \<mapsto> g4)\<rparr>)
                  else
                    let g3 = g2\<lparr>potBalance := potBalance g2 + GRIT_BONUS\<rparr>;
                        click = Click user (potBalance g3);
                        g4 = advanceTurn g3
                    in (Sent (click # nextTurnMessage g4),
                        w\<lparr>games := (games w)(channel \<mapsto> g4)\<rparr>))"

text \<open>The players the pass handler calls \<open>otherPlayers\<close>:
  \<open>alive.filter(p => p.userId !== userId)\<close>, a comparison of the strings as they are.\<close>

definition otherPlayers :: "GameState \<Rightarrow> string \<Rightarrow> nat list" where
  "otherPlayers game user = filter (\<lambda>i. userId (players game ! i) \<noteq> user) (getAlivePlayers game)"

definition allOthersPassed :: "GameState \<Rightarrow> string \<Rightarrow> bool" where
  "allOthersPassed game user \<longleftrightarrow>
     length (otherPlayers game user) > 0
     \<and> list_all (\<lambda>i. lastAction (players game ! i) = Some Pass) (otherPlayers game user)"

definition pass :: "World \<Rightarrow> string \<Rightarrow> string \<Rightarrow> outcome \<times> World" where
  "pass w channel user =
     (case games w channel of
        None \<Rightarrow> (Sent [NoActiveGame], w)
      | Some game \<Rightarrow>
          if status game \<noteq> Active then (Sent [NoActiveGame], w)
          else
            case getCurrentPlayer game of
              None \<Rightarrow> (Sent [GameErrorNoCurrent], w)
            | Some cp \<Rightarrow>
                if toLowerCase (userId (players game ! cp)) \<noteq> toLowerCase user
                then (Sent [NotYourTurn (userId (players game ! cp))], w)
                else if \<not> alive (players game ! cp) then (Sent [AlreadyEliminated], w)
                else if allOthersPassed game user then (Sent [CannotPass], w)
                else
                  let g1 = updatePlayer cp (\<lambda>p. p\<lparr>lastAction := Some Pass\<rparr>) game;
                      burnAmount = (if potBalance g1 \<ge> PASS_BURN then PASS_BURN
                                    else potBalance g1);
                      g2 = g1\<lparr>potBalance := potBalance g1 - burnAmount\<rparr>;
                      passed = Passed user burnAmount (potBalance g2);
                      g3 = advanceTurn g2;
                      allJustPassed = checkForcedShoot g3
                  in
                  case getCurrentPlayer g3 of
                    None \<Rightarrow> (Sent [passed], w\<lparr>games := (games w)(channel \<mapsto> g3)\<rparr>)
                  | Some np \<Rightarrow>
                      if allJustPassed then
                        let g4 = resetLastActions g3
                        in (Sent [passed, EveryoneChickened (userId (players g3 ! np))],
                            w\<lparr>games := (games w)(channel \<mapsto> g4)\<rparr>)
                      else (Sent [passed, YourTurn (userId (players g3 ! np))],
                            w\<lparr>games := (games w)(channel \<mapsto> g3)\<rparr>))"

definition gameStatus :: "World \<Rightarrow> string \<Rightarrow> outcome \<times> World" where
  "gameStatus w channel =
     (case games w channel of
        None \<Rightarrow> (Sent [NoGameStatus], w)
      | Some game \<Rightarrow> (Sent [StatusReport game], w))"

definition showHelp :: "World \<Rightarrow> string \<Rightarrow> outcome \<times> World" where
  "showHelp w channel = (Sent [HelpText], w)"

subsection \<open>Events and runs\<close>

datatype event =
    Tip TipEvent
  | JoinGameCmd string string
  | StartGameCmd string string
  | ShootCmd string string bool
  | PassCmd string string
  | GameStatusCmd string
  | HelpCmd string

fun dispatch :: "string \<Rightarrow> World \<Rightarrow> event \<Rightarrow> outcome \<times> World" where
  "dispatch botId w (Tip ev) = onTip botId w ev"
| "dispatch botId w (JoinGameCmd channel user) = joinGame w channel user"
| "dispatch botId w (StartGameCmd channel user) = startGame w channel user"
| "dispatch botId w (ShootCmd channel user isDead) = shoot w channel user isDead"
| "dispatch botId w (PassCmd channel user) = pass w channel user"
| "dispatch botId w (GameStatusCmd channel) = gameStatus w channel"
| "dispatch botId w (HelpCmd channel) = showHelp w channel"

fun run :: "string \<Rightarrow> World \<Rightarrow> event list \<Rightarrow> World" where
  "run botId w [] = w"
| "run botId w (e # es) = run botId (snd (dispatch botId w e)) es"

subsection \<open>Classifying what a handler sent\<close>

text \<open>The messages that report a refused request: wrong status, duplicate enrollment, no
  game, not enough players, no current player, not your turn, already eliminated, must
  shoot.\<close>

fun isRejection :: "message \<Rightarrow> bool" where
  "isRejection (TipGameAlready s) = True"
| "isRejection (AlreadyInGame u) = True"
| "isRejection NoGameInProgress = True"
| "isRejection (StartGameAlready s) = True"
| "isRejection (NeedTwoPlayers n) = True"
| "isRejection NoActiveGame = True"
| "isRejection GameErrorNoCurrent = True"
| "isRejection (NotYourTurn u) = True"
| "isRejection AlreadyEliminated = True"
| "isRejection CannotPass = True"
| "isRejection m = False"

fun rejected :: "outcome \<Rightarrow> bool" where
  "rejected (Sent ms) = list_ex isRejection ms"
| "rejected TypeError = False"

text \<open>The player record a deposit enrolls.\<close>

definition enrolled :: "TipEvent \<Rightarrow> Player" where
  "enrolled event = \<lparr>userId = senderUserId event, smartAccountAddress = senderAddress event,
                      alive = True, lastAction = None\<rparr>"

text \<open>Deposits carry a non-negative amount (the transport's contract); the commands carry
  none.\<close>

fun nonNegativeTip :: "event \<Rightarrow> bool" where
  "nonNegativeTip (Tip ev) = (0 \<le> amount ev)"
| "nonNegativeTip e = True"

subsection \<open>Predicates and abbreviations used in the statements\<close>

text \<open>Every alive player has \<open>lastAction = null\<close>.\<close>

definition aliveUnacted :: "GameState \<Rightarrow> bool" where
  "aliveUnacted g \<longleftrightarrow> (\<forall>p\<in>set (players g). alive p \<longrightarrow> lastAction p = None)"

text \<open>No stored game has a negative pot.\<close>

definition potsNonNegative :: "World \<Rightarrow> bool" where
  "potsNonNegative w \<longleftrightarrow> (\<forall>ch g. games w ch = Some g \<longrightarrow> 0 \<le> potBalance g)"

text \<open>The game after the shooter at reference \<open>cp\<close> has drawn the bang: last action
  written, rotation reset, \<open>alive\<close> cleared.\<close>

definition eliminate :: "nat \<Rightarrow> GameState \<Rightarrow> GameState" where
  "eliminate cp g = updatePlayer cp (\<lambda>p. p\<lparr>alive := False\<rparr>)
     (resetLastActions (updatePlayer cp (\<lambda>p. p\<lparr>lastAction := Some Shoot\<rparr>) g))"

text \<open>Every player of a game that is still waiting is alive.\<close>

definition waitingPlayersAlive :: "World \<Rightarrow> bool" where
  "waitingPlayersAlive w \<longleftrightarrow>
     (\<forall>ch g. games w ch = Some g \<and> status g = Waiting \<longrightarrow> (\<forall>p\<in>set (players g). alive p))"

subsection \<open>Sample inputs\<close>

definition botAddress :: string where
  "botAddress = ''0xb07''"

definition aliceTip :: TipEvent where
  "aliceTip = \<lparr>receiverAddress = ''0xB07'', channelId = ''lobby'', senderAddress = ''0xA1'',
               senderUserId = ''alice'', amount = 700\<rparr>"

definition bobTip :: TipEvent where
  "bobTip = \<lparr>receiverAddress = ''0xB07'', channelId = ''lobby'', senderAddress = ''0xB2'',
             senderUserId = ''bob'', amount = 300\<rparr>"

definition carolTip :: TipEvent where
  "carolTip = \<lparr>receiverAddress = ''0xB07'', channelId = ''lobby'', senderAddress = ''0xC3'',
               senderUserId = ''carol'', amount = 0\<rparr>"

definition aliceJoined :: World where
  "aliceJoined = run botAddress emptyWorld [Tip aliceTip]"

definition twoJoined :: World where
  "twoJoined = run botAddress emptyWorld [Tip aliceTip, Tip bobTip]"

definition aliceHasPassed :: World where
  "aliceHasPassed = run botAddress emptyWorld
     [Tip aliceTip, Tip bobTip, StartGameCmd ''lobby'' ''alice'', PassCmd ''lobby'' ''alice'']"

definition noneAlive :: GameState where
  "noneAlive = \<lparr>players = [(enrolled aliceTip)\<lparr>alive := False\<rparr>], potBalance = 700,
                currentTurnIndex = 0, status = Active, winner = None\<rparr>"

definition indexBeyond :: GameState where
  "indexBeyond = \<lparr>players = [enrolled aliceTip, (enrolled bobTip)\<lparr>alive := False\<rparr>,
                             enrolled carolTip],
                  potBalance = 1000, currentTurnIndex = 7, status = Active, winner = None\<rparr>"

definition twoStarted :: World where
  "twoStarted = run botAddress emptyWorld
     [Tip aliceTip, Tip bobTip, StartGameCmd ''lobby'' ''alice'']"

definition threeStarted :: World where
  "threeStarted = run botAddress emptyWorld
     [Tip aliceTip, Tip bobTip, Tip carolTip, StartGameCmd ''lobby'' ''alice'']"

definition aliceBackInTurn :: World where
  "aliceBackInTurn = run botAddress threeStarted
     [ShootCmd ''lobby'' ''alice'' False, PassCmd ''lobby'' ''bob'', PassCmd ''lobby'' ''carol'']"

definition namelessTip :: TipEvent where
  "namelessTip = \<lparr>receiverAddress = ''0xB07'', channelId = ''lobby'', senderAddress = ''0xD4'',
                  senderUserId = '''', amount = 100\<rparr>"

definition bobAndNameless :: World where
  "bobAndNameless = run botAddress emptyWorld
     [Tip bobTip, Tip namelessTip, StartGameCmd ''lobby'' ''bob'']"

section \<open>Basic facts\<close>

lemma getAlivePlayers_mem:
  "i \<in> set (getAlivePlayers g) \<longleftrightarrow> i < length (players g) \<and> alive (players g ! i)"
  by (auto simp: getAlivePlayers_def)

lemma getAlivePlayers_Nil:
  "getAlivePlayers g = [] \<longleftrightarrow> \<not> (\<exists>p\<in>set (players g). alive p)"
  by (auto simp: getAlivePlayers_def filter_empty_conv all_set_conv_all_nth)

lemma getCurrentPlayer_Some_mem:
  "getCurrentPlayer g = Some i \<Longrightarrow> i \<in> set (getAlivePlayers g)"
  by (auto simp: getCurrentPlayer_def Let_def split: if_splits)

lemma getCurrentPlayer_alive:
  "getCurrentPlayer g = Some i \<Longrightarrow> i < length (players g) \<and> alive (players g ! i)"
  using getCurrentPlayer_Some_mem getAlivePlayers_mem by blast

lemma getCurrentPlayer_no_alive:
  "getAlivePlayers g = [] \<Longrightarrow> getCurrentPlayer g = None"
  by (simp add: getCurrentPlayer_def)

lemma getCurrentPlayer_nonneg:
  assumes "getAlivePlayers g \<noteq> []" and "0 \<le> currentTurnIndex g"
  shows "getCurrentPlayer g =
    Some (getAlivePlayers g ! nat (currentTurnIndex g mod int (length (getAlivePlayers g))))"
  using assms by (simp add: getCurrentPlayer_def Let_def jsRem_def)

lemma nextTurnMessage_not_rejection: "\<not> list_ex isRejection (nextTurnMessage g)"
  by (simp add: nextTurnMessage_def split: option.splits)

subsection \<open>A refused request changes nothing\<close>

lemma shoot_rejected_unchanged:
  "rejected (fst (shoot w ch u d)) \<Longrightarrow> snd (shoot w ch u d) = w"
  by (auto simp: shoot_def Let_def nextTurnMessage_not_rejection split: option.splits if_splits)

lemma pass_rejected_unchanged:
  "rejected (fst (pass w ch u)) \<Longrightarrow> snd (pass w ch u) = w"
  by (auto simp: pass_def Let_def split: option.splits if_splits)

lemma startGame_rejected_unchanged:
  "rejected (fst (startGame w ch u)) \<Longrightarrow> snd (startGame w ch u) = w"
  by (auto simp: startGame_def Let_def split: option.splits if_splits)

subsection \<open>The two outcomes of a deposit into a waiting game\<close>

lemma find_samePlayer_None:
  "find (samePlayer ev) ps = None \<longleftrightarrow> \<not> (\<exists>p\<in>set ps. samePlayer ev p)"
  by (auto simp: find_None_iff)

lemma resolveGame_stored:
  "players (resolveGame w channel) \<noteq> [] \<Longrightarrow> games w channel = Some (resolveGame w channel)"
  by (cases "games w channel") (simp_all add: resolveGame_def newGame_def)

lemma onTip_joined:
  assumes "toLowerCase (receiverAddress ev) = toLowerCase botId"
    and "status (resolveGame w (channelId ev)) = Waiting"
    and "\<not> (\<exists>p\<in>set (players (resolveGame w (channelId ev))). samePlayer ev p)"
  shows "onTip botId w ev =
    (Sent [Joined (senderUserId ev) (amount ev)
             (Suc (length (players (resolveGame w (channelId ev)))))
             (potBalance (resolveGame w (channelId ev)) + amount ev)],
     w\<lparr>games := (games w)(channelId ev \<mapsto>
          (resolveGame w (channelId ev))
            \<lparr>players := players (resolveGame w (channelId ev)) @ [enrolled ev],
             potBalance := potBalance (resolveGame w (channelId ev)) + amount ev\<rparr>),
       eligiblePlayers := (eligiblePlayers w)(toLowerCase (senderAddress ev) \<mapsto>
          (senderUserId ev, channelId ev))\<rparr>)"
proof -
  have "find (samePlayer ev) (players (resolveGame w (channelId ev))) = None"
    using assms(3) by (simp add: find_samePlayer_None)
  then show ?thesis
    using assms(1,2) by (simp add: onTip_def Let_def enrolled_def)
qed

lemma onTip_duplicate:
  assumes "toLowerCase (receiverAddress ev) = toLowerCase botId"
    and "status (resolveGame w (channelId ev)) = Waiting"
    and "\<exists>p\<in>set (players (resolveGame w (channelId ev))). samePlayer ev p"
  shows "onTip botId w ev =
    (Sent [AlreadyInGame (senderUserId ev)],
     w\<lparr>eligiblePlayers := (eligiblePlayers w)(toLowerCase (senderAddress ev) \<mapsto>
          (senderUserId ev, channelId ev))\<rparr>)"
proof -
  obtain p where "find (samePlayer ev) (players (resolveGame w (channelId ev))) = Some p"
    using assms(3) by (cases "find (samePlayer ev) (players (resolveGame w (channelId ev)))")
      (auto simp: find_samePlayer_None)
  moreover have "players (resolveGame w (channelId ev)) \<noteq> []"
    using assms(3) by auto
  then have "games w (channelId ev) = Some (resolveGame w (channelId ev))"
    by (rule resolveGame_stored)
  then have "(games w)(channelId ev \<mapsto> resolveGame w (channelId ev)) = games w"
    by (rule map_upd_triv)
  ultimately show ?thesis
    using assms(1,2) by (simp add: onTip_def Let_def)
qed

section \<open>Enrollment\<close>

text \<open>
  Claim C5. A deposit is a tip whose receiver is the bot. When the channel's game is waiting
  (the game stored for the channel, or the fresh game the handler creates when there is
  none), the handler looks for an enrolled player with the same payout address (compared
  after \<open>toLowerCase\<close>, as the handler does) or the same identity. If there is one, it
  answers "already in the game" and the registry is unchanged. If there is none, it appends
  the depositor as an alive player with no last action at the end of \<open>players\<close> and adds
  the whole amount to the pot, whatever the amount is.
\<close>

theorem deposit_into_waiting_game:
  assumes "toLowerCase (receiverAddress ev) = toLowerCase botId"
    and "status (resolveGame w (channelId ev)) = Waiting"
  shows "let g = resolveGame w (channelId ev); r = onTip botId w ev in
    if \<exists>p\<in>set (players g). samePlayer ev p
    then fst r = Sent [AlreadyInGame (senderUserId ev)] \<and> games (snd r) = games w
    else fst r = Sent [Joined (senderUserId ev) (amount ev) (length (players g) + 1)
                         (potBalance g + amount ev)]
       \<and> games (snd r) = (games w)(channelId ev \<mapsto>
            g\<lparr>players := players g @ [enrolled ev], potBalance := potBalance g + amount ev\<rparr>)"
proof (cases "\<exists>p\<in>set (players (resolveGame w (channelId ev))). samePlayer ev p")
  case True
  then show ?thesis
    using onTip_duplicate [OF assms True] by (simp add: Let_def)
next
  case False
  then show ?thesis
    using onTip_joined [OF assms False] by (simp add: Let_def)
qed

theorem deposit_into_waiting_game_witness:
  "games (snd (onTip botAddress aliceJoined bobTip)) ''lobby'' =
     Some \<lparr>players = [enrolled aliceTip, enrolled bobTip], potBalance = 1000,
           currentTurnIndex = 0, status = Waiting, winner = None\<rparr>
   \<and> fst (onTip botAddress aliceJoined aliceTip) = Sent [AlreadyInGame ''alice'']
   \<and> games (snd (onTip botAddress aliceJoined aliceTip)) = games aliceJoined"
proof -
  have rb: "toLowerCase (receiverAddress bobTip) = toLowerCase botAddress" by code_simp
  have ra: "toLowerCase (receiverAddress aliceTip) = toLowerCase botAddress" by code_simp
  have g: "resolveGame aliceJoined ''lobby'' =
      \<lparr>players = [enrolled aliceTip], potBalance = 700, currentTurnIndex = 0,
       status = Waiting, winner = None\<rparr>"
    by code_simp
  have sb: "status (resolveGame aliceJoined (channelId bobTip)) = Waiting"
    by (simp add: g bobTip_def)
  have sa: "status (resolveGame aliceJoined (channelId aliceTip)) = Waiting"
    by (simp add: g aliceTip_def)
  have nb: "\<not> (\<exists>p\<in>set (players (resolveGame aliceJoined (channelId bobTip))). samePlayer bobTip p)"
    by code_simp
  have da: "\<exists>p\<in>set (players (resolveGame aliceJoined (channelId aliceTip))). samePlayer aliceTip p"
    by code_simp
  show ?thesis
    using deposit_into_waiting_game [OF rb sb] deposit_into_waiting_game [OF ra sa] nb da
    by (simp add: Let_def g bobTip_def aliceTip_def)
qed

text \<open>
  Claim C10. A deposit of amount 0 by a sender who is not enrolled, into a waiting game, is
  accepted: the sender is appended as an alive player and the pot is unchanged. The handler
  never compares the amount with anything.
\<close>

theorem zero_deposit_accepted:
  assumes "toLowerCase (receiverAddress ev) = toLowerCase botId"
    and "status (resolveGame w (channelId ev)) = Waiting"
    and "\<not> (\<exists>p\<in>set (players (resolveGame w (channelId ev))). samePlayer ev p)"
    and "amount ev = 0"
  shows "\<not> rejected (fst (onTip botId w ev))
    \<and> (\<exists>g'. games (snd (onTip botId w ev)) (channelId ev) = Some g'
          \<and> players g' = players (resolveGame w (channelId ev)) @
               [\<lparr>userId = senderUserId ev, smartAccountAddress = senderAddress ev,
                 alive = True, lastAction = None\<rparr>]
          \<and> potBalance g' = potBalance (resolveGame w (channelId ev))
          \<and> status g' = Waiting)"
  using assms(2,4) by (simp add: onTip_joined [OF assms(1,2,3)] enrolled_def)

theorem zero_deposit_accepted_witness:
  "\<not> rejected (fst (onTip botAddress twoJoined carolTip))
   \<and> (\<exists>g'. games (snd (onTip botAddress twoJoined carolTip)) ''lobby'' = Some g'
         \<and> players g' = [enrolled aliceTip, enrolled bobTip, enrolled carolTip]
         \<and> potBalance g' = 1000 \<and> status g' = Waiting)"
proof -
  have r: "toLowerCase (receiverAddress carolTip) = toLowerCase botAddress" by code_simp
  have g: "resolveGame twoJoined ''lobby'' =
      \<lparr>players = [enrolled aliceTip, enrolled bobTip], potBalance = 1000,
       currentTurnIndex = 0, status = Waiting, winner = None\<rparr>"
    by code_simp
  have s: "status (resolveGame twoJoined (channelId carolTip)) = Waiting"
    by (simp add: g carolTip_def)
  have n: "\<not> (\<exists>p\<in>set (players (resolveGame twoJoined (channelId carolTip))). samePlayer carolTip p)"
    by code_simp
  have a: "amount carolTip = 0" by (simp add: carolTip_def)
  show ?thesis
    using zero_deposit_accepted [OF r s n a] by (simp add: g carolTip_def enrolled_def)
qed

section \<open>Start\<close>

subsection \<open>Waiting games hold only alive players\<close>

lemma status_updatePlayer [simp]: "status (updatePlayer i f g) = status g"
  by (simp add: updatePlayer_def)

lemma status_resetLastActions [simp]: "status (resetLastActions g) = status g"
  by (simp add: resetLastActions_def)

lemma status_advanceTurn [simp]: "status (advanceTurn g) = status g"
  by (simp add: advanceTurn_def Let_def)

lemma waitingPlayersAlive_store_other:
  "waitingPlayersAlive w \<Longrightarrow> status g \<noteq> Waiting \<Longrightarrow>
   waitingPlayersAlive (w\<lparr>games := (games w)(ch \<mapsto> g)\<rparr>)"
  by (simp add: waitingPlayersAlive_def)

lemma waitingPlayersAlive_store_alive:
  "waitingPlayersAlive w \<Longrightarrow> \<forall>p\<in>set (players g). alive p \<Longrightarrow>
   waitingPlayersAlive (w\<lparr>games := (games w)(ch \<mapsto> g)\<rparr>)"
  by (simp add: waitingPlayersAlive_def)

lemma waitingPlayersAlive_delete:
  "waitingPlayersAlive w \<Longrightarrow> waitingPlayersAlive (w\<lparr>games := (games w)(ch := None)\<rparr>)"
  by (simp add: waitingPlayersAlive_def)

lemma shoot_waitingPlayersAlive:
  assumes "waitingPlayersAlive w"
  shows "waitingPlayersAlive (snd (shoot w ch u d))"
proof (cases "rejected (fst (shoot w ch u d))")
  case True
  then show ?thesis using assms by (simp add: shoot_rejected_unchanged)
next
  case False
  then obtain g where g: "games w ch = Some g" and a: "status g = Active"
    by (cases "games w ch") (auto simp: shoot_def split: if_splits)
  show ?thesis
    using assms g a
    by (auto simp: shoot_def Let_def
        intro!: waitingPlayersAlive_store_other waitingPlayersAlive_delete split: option.splits)
qed

lemma pass_waitingPlayersAlive:
  assumes "waitingPlayersAlive w"
  shows "waitingPlayersAlive (snd (pass w ch u))"
proof (cases "rejected (fst (pass w ch u))")
  case True
  then show ?thesis using assms by (simp add: pass_rejected_unchanged)
next
  case False
  then obtain g where g: "games w ch = Some g" and a: "status g = Active"
    by (cases "games w ch") (auto simp: pass_def split: if_splits)
  show ?thesis
    using assms g a
    by (auto simp: pass_def Let_def
        intro!: waitingPlayersAlive_store_other split: option.splits)
qed

lemma startGame_waitingPlayersAlive:
  assumes "waitingPlayersAlive w"
  shows "waitingPlayersAlive (snd (startGame w ch u))"
  using assms
  by (auto simp: startGame_def Let_def
      intro!: waitingPlayersAlive_store_other split: option.splits)

lemma resolveGame_alive:
  "waitingPlayersAlive w \<Longrightarrow> status (resolveGame w ch) = Waiting \<Longrightarrow>
   \<forall>p\<in>set (players (resolveGame w ch)). alive p"
  by (cases "games w ch") (auto simp: resolveGame_def newGame_def waitingPlayersAlive_def)

lemma onTip_waitingPlayersAlive:
  assumes "waitingPlayersAlive w"
  shows "waitingPlayersAlive (snd (onTip botId w ev))"
proof (cases "toLowerCase (receiverAddress ev) = toLowerCase botId")
  case False
  then show ?thesis using assms by (simp add: onTip_def)
next
  case recv: True
  show ?thesis
  proof (cases "status (resolveGame w (channelId ev)) = Waiting")
    case False
    then show ?thesis
      using assms recv
      by (simp add: onTip_def Let_def waitingPlayersAlive_store_other)
  next
    case waiting: True
    have al: "\<forall>p\<in>set (players (resolveGame w (channelId ev))). alive p"
      using assms waiting by (rule resolveGame_alive)
    show ?thesis
    proof (cases "\<exists>p\<in>set (players (resolveGame w (channelId ev))). samePlayer ev p")
      case True
      then show ?thesis
        using assms by (simp add: onTip_duplicate [OF recv waiting True] waitingPlayersAlive_def)
    next
      case False
      then show ?thesis
        using assms al
        by (simp add: onTip_joined [OF recv waiting False] waitingPlayersAlive_def enrolled_def)
    qed
  qed
qed

lemma dispatch_waitingPlayersAlive:
  "waitingPlayersAlive w \<Longrightarrow> waitingPlayersAlive (snd (dispatch botId w e))"
  by (cases e)
    (simp_all add: onTip_waitingPlayersAlive startGame_waitingPlayersAlive
      shoot_waitingPlayersAlive pass_waitingPlayersAlive joinGame_def gameStatus_def
      showHelp_def split: option.splits)

lemma run_waitingPlayersAlive:
  "waitingPlayersAlive w \<Longrightarrow> waitingPlayersAlive (run botId w es)"
  by (induction es arbitrary: w) (simp_all add: dispatch_waitingPlayersAlive)

lemma reachable_waitingPlayersAlive: "waitingPlayersAlive (run botId emptyWorld es)"
  by (rule run_waitingPlayersAlive) (simp add: waitingPlayersAlive_def emptyWorld_def)

subsection \<open>The outcomes of a start\<close>

lemma getAlivePlayers_first:
  assumes "i < length (players g)" and "alive (players g ! i)"
    and "\<forall>j<i. \<not> alive (players g ! j)"
  shows "getAlivePlayers g =
    i # filter (\<lambda>k. alive (players g ! k)) [Suc i..<length (players g)]"
proof -
  have "[0..<length (players g)] = [0..<i] @ i # [Suc i..<length (players g)]"
    using assms(1) by (metis less_imp_le_nat upt_add_eq_append upt_conv_Cons le_add_diff_inverse
        add_0 zero_le)
  moreover have "filter (\<lambda>k. alive (players g ! k)) [0..<i] = []"
    using assms(3) by (simp add: filter_empty_conv)
  ultimately show ?thesis
    using assms(2) by (simp add: getAlivePlayers_def)
qed

lemma getCurrentPlayer_at_start:
  assumes "i < length (players g)" and "alive (players g ! i)"
    and "\<forall>j<i. \<not> alive (players g ! j)"
  shows "getCurrentPlayer (g\<lparr>status := Active, currentTurnIndex := 0\<rparr>) = Some i"
proof -
  have "getAlivePlayers (g\<lparr>status := Active, currentTurnIndex := 0\<rparr>) = getAlivePlayers g"
    by (simp add: getAlivePlayers_def)
  then show ?thesis
    using getAlivePlayers_first [OF assms]
    by (simp add: getCurrentPlayer_def Let_def jsRem_def)
qed

lemma startGame_started:
  assumes "games w ch = Some g" and "status g = Waiting" and "2 \<le> length (players g)"
    and "i < length (players g)" and "alive (players g ! i)"
    and "\<forall>j<i. \<not> alive (players g ! j)"
  shows "startGame w ch u =
    (Sent [GameStarted (g\<lparr>status := Active, currentTurnIndex := 0\<rparr>) (userId (players g ! i))],
     w\<lparr>games := (games w)(ch \<mapsto> g\<lparr>status := Active, currentTurnIndex := 0\<rparr>)\<rparr>)"
  using assms(1-3) getCurrentPlayer_at_start [OF assms(4-6)]
  by (simp add: startGame_def Let_def)

text \<open>With no alive player the handler has already written the status and the index when the
  read of \<open>currentPlayer.userId\<close> throws.\<close>

lemma startGame_crash:
  assumes "games w ch = Some g" and "status g = Waiting" and "2 \<le> length (players g)"
    and "\<not> (\<exists>p\<in>set (players g). alive p)"
  shows "startGame w ch u =
    (TypeError, w\<lparr>games := (games w)(ch \<mapsto> g\<lparr>status := Active, currentTurnIndex := 0\<rparr>)\<rparr>)"
proof -
  have "getAlivePlayers (g\<lparr>status := Active, currentTurnIndex := 0\<rparr>) = []"
    using assms(4) getAlivePlayers_Nil [of "g\<lparr>status := Active, currentTurnIndex := 0\<rparr>"]
    by simp
  then have "getCurrentPlayer (g\<lparr>status := Active, currentTurnIndex := 0\<rparr>) = None"
    by (rule getCurrentPlayer_no_alive)
  then show ?thesis using assms(1-3) by (simp add: startGame_def Let_def)
qed

lemma startGame_sends_started_only_if:
  assumes "fst (startGame w ch u) = Sent [GameStarted g' cur]"
  shows "\<exists>g. games w ch = Some g \<and> status g = Waiting \<and> 2 \<le> length (players g)"
  using assms by (auto simp: startGame_def Let_def split: option.splits if_splits)

text \<open>
  Claim C7. In every world the handlers reach from the empty registry, \<open>/start-game\<close>
  succeeds, that is, answers with the game-started message, exactly when the channel has a
  game whose status is waiting and which has at least two players. It then stores that game
  with status active and turn index 0, everything else as it was, and the current player is
  the player at position 0, the first enrolled one, who is alive; the message names that
  player. In any world at all: when the first alive player of a waiting game with at least
  two players is at position \<open>i\<close>, the start succeeds with the player at \<open>i\<close> current;
  with no game, with a status other than waiting, and with fewer than two players the
  handler answers with the matching refusal and returns the world as it was, so a waiting
  game stays waiting.
\<close>

theorem start_game_spec:
  "(let w = run botId emptyWorld es; r = startGame w ch u in
      ((\<exists>g' cur. fst r = Sent [GameStarted g' cur]) \<longleftrightarrow>
         (\<exists>g. games w ch = Some g \<and> status g = Waiting \<and> 2 \<le> length (players g)))
      \<and> (\<forall>g. games w ch = Some g \<and> status g = Waiting \<and> 2 \<le> length (players g) \<longrightarrow>
            alive (players g ! 0)
            \<and> r = (Sent [GameStarted (g\<lparr>status := Active, currentTurnIndex := 0\<rparr>)
                           (userId (players g ! 0))],
                    w\<lparr>games := (games w)(ch \<mapsto> g\<lparr>status := Active, currentTurnIndex := 0\<rparr>)\<rparr>)
            \<and> getCurrentPlayer (g\<lparr>status := Active, currentTurnIndex := 0\<rparr>) = Some 0))
   \<and> (\<forall>w g i. games w ch = Some g \<and> status g = Waiting \<and> 2 \<le> length (players g)
          \<and> i < length (players g) \<and> alive (players g ! i)
          \<and> (\<forall>j<i. \<not> alive (players g ! j)) \<longrightarrow>
        startGame w ch u =
          (Sent [GameStarted (g\<lparr>status := Active, currentTurnIndex := 0\<rparr>)
                   (userId (players g ! i))],
           w\<lparr>games := (games w)(ch \<mapsto> g\<lparr>status := Active, currentTurnIndex := 0\<rparr>)\<rparr>)
        \<and> getCurrentPlayer (g\<lparr>status := Active, currentTurnIndex := 0\<rparr>) = Some i)
   \<and> (\<forall>w. games w ch = None \<longrightarrow> startGame w ch u = (Sent [NoGameInProgress], w))
   \<and> (\<forall>w g. games w ch = Some g \<and> status g \<noteq> Waiting \<longrightarrow>
        startGame w ch u = (Sent [StartGameAlready (status g)], w))
   \<and> (\<forall>w g. games w ch = Some g \<and> status g = Waiting \<and> length (players g) < 2 \<longrightarrow>
        startGame w ch u = (Sent [NeedTwoPlayers (length (players g))], w))"
proof -
  define w where "w = run botId emptyWorld es"
  have inv: "waitingPlayersAlive w"
    unfolding w_def by (rule reachable_waitingPlayersAlive)
  have ok: "alive (players g ! 0)
      \<and> startGame w ch u =
          (Sent [GameStarted (g\<lparr>status := Active, currentTurnIndex := 0\<rparr>)
                   (userId (players g ! 0))],
           w\<lparr>games := (games w)(ch \<mapsto> g\<lparr>status := Active, currentTurnIndex := 0\<rparr>)\<rparr>)
      \<and> getCurrentPlayer (g\<lparr>status := Active, currentTurnIndex := 0\<rparr>) = Some 0"
    if g: "games w ch = Some g" "status g = Waiting" "2 \<le> length (players g)" for g
  proof -
    have pos: "0 < length (players g)" using g(3) by linarith
    have "\<forall>p\<in>set (players g). alive p"
      using inv g(1,2) by (auto simp: waitingPlayersAlive_def)
    then have al: "alive (players g ! 0)" using nth_mem [OF pos] by blast
    have none: "\<forall>j<0::nat. \<not> alive (players g ! j)" by simp
    show ?thesis
      using al startGame_started [OF g pos al none] getCurrentPlayer_at_start [OF pos al none]
      by simp
  qed
  have iff: "(\<exists>g' cur. fst (startGame w ch u) = Sent [GameStarted g' cur]) \<longleftrightarrow>
         (\<exists>g. games w ch = Some g \<and> status g = Waiting \<and> 2 \<le> length (players g))"
  proof
    assume "\<exists>g' cur. fst (startGame w ch u) = Sent [GameStarted g' cur]"
    then show "\<exists>g. games w ch = Some g \<and> status g = Waiting \<and> 2 \<le> length (players g)"
      using startGame_sends_started_only_if by blast
  next
    assume "\<exists>g. games w ch = Some g \<and> status g = Waiting \<and> 2 \<le> length (players g)"
    then obtain g where "games w ch = Some g" "status g = Waiting" "2 \<le> length (players g)"
      by blast
    from ok [OF this] show "\<exists>g' cur. fst (startGame w ch u) = Sent [GameStarted g' cur]"
      by simp
  qed
  have reach: "let w = run botId emptyWorld es; r = startGame w ch u in
      ((\<exists>g' cur. fst r = Sent [GameStarted g' cur]) \<longleftrightarrow>
         (\<exists>g. games w ch = Some g \<and> status g = Waiting \<and> 2 \<le> length (players g)))
      \<and> (\<forall>g. games w ch = Some g \<and> status g = Waiting \<and> 2 \<le> length (players g) \<longrightarrow>
            alive (players g ! 0)
            \<and> r = (Sent [GameStarted (g\<lparr>status := Active, currentTurnIndex := 0\<rparr>)
                           (userId (players g ! 0))],
                    w\<lparr>games := (games w)(ch \<mapsto> g\<lparr>status := Active, currentTurnIndex := 0\<rparr>)\<rparr>)
            \<and> getCurrentPlayer (g\<lparr>status := Active, currentTurnIndex := 0\<rparr>) = Some 0)"
    unfolding Let_def w_def [symmetric] using iff ok by blast
  have gen: "startGame w' ch u =
          (Sent [GameStarted (g\<lparr>status := Active, currentTurnIndex := 0\<rparr>)
                   (userId (players g ! i))],
           w'\<lparr>games := (games w')(ch \<mapsto> g\<lparr>status := Active, currentTurnIndex := 0\<rparr>)\<rparr>)
        \<and> getCurrentPlayer (g\<lparr>status := Active, currentTurnIndex := 0\<rparr>) = Some i"
    if "games w' ch = Some g \<and> status g = Waiting \<and> 2 \<le> length (players g)
          \<and> i < length (players g) \<and> alive (players g ! i)
          \<and> (\<forall>j<i. \<not> alive (players g ! j))" for w' g i
    using that startGame_started [of w' ch g i u] getCurrentPlayer_at_start [of i g] by simp
  have f1: "startGame w' ch u = (Sent [NoGameInProgress], w')" if "games w' ch = None" for w'
    using that by (simp add: startGame_def)
  have f2: "startGame w' ch u = (Sent [StartGameAlready (status g)], w')"
    if "games w' ch = Some g \<and> status g \<noteq> Waiting" for w' g
    using that by (simp add: startGame_def)
  have f3: "startGame w' ch u = (Sent [NeedTwoPlayers (length (players g))], w')"
    if "games w' ch = Some g \<and> status g = Waiting \<and> length (players g) < 2" for w' g
    using that by (simp add: startGame_def)
  show ?thesis
    using reach gen f1 f2 f3 by blast
qed

theorem start_game_spec_witness:
  "startGame twoJoined ''lobby'' ''bob'' =
     (Sent [GameStarted
              \<lparr>players = [enrolled aliceTip, enrolled bobTip], potBalance = 1000,
               currentTurnIndex = 0, status = Active, winner = None\<rparr> ''alice''],
      twoJoined\<lparr>games := (games twoJoined)(''lobby'' \<mapsto>
              \<lparr>players = [enrolled aliceTip, enrolled bobTip], potBalance = 1000,
               currentTurnIndex = 0, status = Active, winner = None\<rparr>)\<rparr>)
   \<and> startGame aliceJoined ''lobby'' ''alice'' = (Sent [NeedTwoPlayers 1], aliceJoined)
   \<and> startGame emptyWorld ''lobby'' ''alice'' = (Sent [NoGameInProgress], emptyWorld)"
proof -
  define g0 where "g0 = \<lparr>players = [enrolled aliceTip, enrolled bobTip], potBalance = 1000,
       currentTurnIndex = 0, status = Waiting, winner = None\<rparr>"
  define a0 where "a0 = \<lparr>players = [enrolled aliceTip], potBalance = 700,
       currentTurnIndex = 0, status = Waiting, winner = None\<rparr>"
  have g: "games twoJoined ''lobby'' = Some g0" unfolding g0_def by code_simp
  have a: "games aliceJoined ''lobby'' = Some a0" unfolding a0_def by code_simp
  have e: "games emptyWorld ''lobby'' = None" by (simp add: emptyWorld_def)
  have g2: "status g0 = Waiting \<and> 2 \<le> length (players g0)" by (simp add: g0_def)
  have a2: "status a0 = Waiting \<and> length (players a0) < 2" by (simp add: a0_def)
  note bob = start_game_spec [of botAddress "[Tip aliceTip, Tip bobTip]" "''lobby''" "''bob''",
      unfolded Let_def, folded twoJoined_def]
  note alice = start_game_spec [of botAddress "[]" "''lobby''" "''alice''", unfolded Let_def]
  from bob g g2 have "startGame twoJoined ''lobby'' ''bob'' =
      (Sent [GameStarted (g0\<lparr>status := Active, currentTurnIndex := 0\<rparr>)
               (userId (players g0 ! 0))],
       twoJoined\<lparr>games := (games twoJoined)(''lobby'' \<mapsto>
               g0\<lparr>status := Active, currentTurnIndex := 0\<rparr>)\<rparr>)"
    by blast
  then have s1: "startGame twoJoined ''lobby'' ''bob'' =
     (Sent [GameStarted
              \<lparr>players = [enrolled aliceTip, enrolled bobTip], potBalance = 1000,
               currentTurnIndex = 0, status = Active, winner = None\<rparr> ''alice''],
      twoJoined\<lparr>games := (games twoJoined)(''lobby'' \<mapsto>
              \<lparr>players = [enrolled aliceTip, enrolled bobTip], potBalance = 1000,
               currentTurnIndex = 0, status = Active, winner = None\<rparr>)\<rparr>)"
    by (simp add: g0_def enrolled_def aliceTip_def)
  from alice a a2 have "startGame aliceJoined ''lobby'' ''alice'' =
      (Sent [NeedTwoPlayers (length (players a0))], aliceJoined)"
    by blast
  then have s2: "startGame aliceJoined ''lobby'' ''alice'' = (Sent [NeedTwoPlayers 1], aliceJoined)"
    by (simp add: a0_def)
  from alice e have s3: "startGame emptyWorld ''lobby'' ''alice'' = (Sent [NoGameInProgress], emptyWorld)"
    by blast
  show ?thesis using s1 s2 s3 by blast
qed

section \<open>Rejections\<close>

text \<open>
  Claim C8. Whatever the event (deposit or command), if the handler answers with a
  rejection, the registry of games after the call is the registry before it: no game is
  touched.
\<close>

theorem rejection_leaves_games_unchanged:
  "rejected (fst (dispatch botId w e)) \<Longrightarrow> games (snd (dispatch botId w e)) = games w"
proof (cases e)
  case (Tip ev)
  assume rej: "rejected (fst (dispatch botId w e))"
  have "games (snd (onTip botId w ev)) = games w"
  proof (cases "toLowerCase (receiverAddress ev) = toLowerCase botId")
    case False
    then show ?thesis by (simp add: onTip_def)
  next
    case recv: True
    show ?thesis
    proof (cases "status (resolveGame w (channelId ev)) = Waiting")
      case waiting: True
      show ?thesis
      proof (cases "\<exists>p\<in>set (players (resolveGame w (channelId ev))). samePlayer ev p")
        case True
        then show ?thesis using onTip_duplicate [OF recv waiting True] by simp
      next
        case False
        then show ?thesis using onTip_joined [OF recv waiting False] rej Tip by simp
      qed
    next
      case False
      then have "games w (channelId ev) = Some (resolveGame w (channelId ev))"
        by (cases "games w (channelId ev)") (simp_all add: resolveGame_def newGame_def)
      then have "(games w)(channelId ev \<mapsto> resolveGame w (channelId ev)) = games w"
        by (rule map_upd_triv)
      then show ?thesis using recv False by (simp add: onTip_def Let_def)
    qed
  qed
  then show ?thesis using Tip by simp
next
  case (JoinGameCmd ch u)
  then show ?thesis by (simp add: joinGame_def)
next
  case (StartGameCmd ch u)
  assume "rejected (fst (dispatch botId w e))"
  then show ?thesis using StartGameCmd startGame_rejected_unchanged [of w ch u] by simp
next
  case (ShootCmd ch u d)
  assume "rejected (fst (dispatch botId w e))"
  then show ?thesis using ShootCmd shoot_rejected_unchanged [of w ch u d] by simp
next
  case (PassCmd ch u)
  assume "rejected (fst (dispatch botId w e))"
  then show ?thesis using PassCmd pass_rejected_unchanged [of w ch u] by simp
next
  case (GameStatusCmd ch)
  then show ?thesis by (simp add: gameStatus_def split: option.splits)
next
  case (HelpCmd ch)
  then show ?thesis by (simp add: showHelp_def)
qed

theorem rejection_leaves_games_unchanged_witness:
  "rejected (fst (dispatch botAddress aliceHasPassed (PassCmd ''lobby'' ''bob'')))
   \<and> games (snd (dispatch botAddress aliceHasPassed (PassCmd ''lobby'' ''bob''))) =
       games aliceHasPassed"
proof -
  have r: "rejected (fst (dispatch botAddress aliceHasPassed (PassCmd ''lobby'' ''bob'')))"
    by code_simp
  from r rejection_leaves_games_unchanged [OF r] show ?thesis by (rule conjI)
qed

section \<open>The current player\<close>

text \<open>
  Claim C9. In a game with at least one alive player and a turn index that is not
  negative, \<open>getCurrentPlayer\<close> returns an alive player of the game: the one at position
  (turn index modulo alive count) among the alive players, so an index at or beyond the
  alive count stays in range. With no alive player it returns null, and then \<open>/shoot\<close> and
  \<open>/pass\<close> on the active game answer with the game-error message and change nothing.
\<close>

theorem current_player_is_alive:
  "((\<exists>p\<in>set (players g). alive p) \<and> 0 \<le> currentTurnIndex g \<longrightarrow>
      (\<exists>i. getCurrentPlayer g = Some i \<and> i < length (players g) \<and> alive (players g ! i)
           \<and> i = getAlivePlayers g ! nat (currentTurnIndex g mod int (length (getAlivePlayers g)))))
   \<and> (\<not> (\<exists>p\<in>set (players g). alive p) \<longrightarrow>
        getCurrentPlayer g = None
        \<and> (games w ch = Some g \<and> status g = Active \<longrightarrow>
             shoot w ch u d = (Sent [GameErrorNoCurrent], w)
             \<and> pass w ch u = (Sent [GameErrorNoCurrent], w)))"
proof (intro conjI impI)
  assume a: "(\<exists>p\<in>set (players g). alive p) \<and> 0 \<le> currentTurnIndex g"
  then have ne: "getAlivePlayers g \<noteq> []" by (simp add: getAlivePlayers_Nil)
  from getCurrentPlayer_nonneg [OF ne] a
  have c: "getCurrentPlayer g =
      Some (getAlivePlayers g ! nat (currentTurnIndex g mod int (length (getAlivePlayers g))))"
    by simp
  from getCurrentPlayer_alive [OF c] c
  show "\<exists>i. getCurrentPlayer g = Some i \<and> i < length (players g) \<and> alive (players g ! i)
      \<and> i = getAlivePlayers g ! nat (currentTurnIndex g mod int (length (getAlivePlayers g)))"
    by simp
next
  assume "\<not> (\<exists>p\<in>set (players g). alive p)"
  then show "getCurrentPlayer g = None"
    by (simp add: getCurrentPlayer_no_alive getAlivePlayers_Nil)
next
  assume n: "\<not> (\<exists>p\<in>set (players g). alive p)" and s: "games w ch = Some g \<and> status g = Active"
  from n have c: "getCurrentPlayer g = None"
    by (simp add: getCurrentPlayer_no_alive getAlivePlayers_Nil)
  show "shoot w ch u d = (Sent [GameErrorNoCurrent], w)"
    using s c by (simp add: shoot_def)
  show "pass w ch u = (Sent [GameErrorNoCurrent], w)"
    using s c by (simp add: pass_def)
qed

theorem current_player_is_alive_witness:
  "getCurrentPlayer indexBeyond = Some 2
   \<and> getCurrentPlayer noneAlive = None
   \<and> shoot \<lparr>games = [''lobby'' \<mapsto> noneAlive], eligiblePlayers = Map.empty\<rparr> ''lobby'' ''alice'' True
       = (Sent [GameErrorNoCurrent], \<lparr>games = [''lobby'' \<mapsto> noneAlive], eligiblePlayers = Map.empty\<rparr>)
   \<and> pass \<lparr>games = [''lobby'' \<mapsto> noneAlive], eligiblePlayers = Map.empty\<rparr> ''lobby'' ''alice''
       = (Sent [GameErrorNoCurrent], \<lparr>games = [''lobby'' \<mapsto> noneAlive], eligiblePlayers = Map.empty\<rparr>)"
proof -
  have a: "(\<exists>p\<in>set (players indexBeyond). alive p) \<and> 0 \<le> currentTurnIndex indexBeyond"
    by code_simp
  have i: "getAlivePlayers indexBeyond !
      nat (currentTurnIndex indexBeyond mod int (length (getAlivePlayers indexBeyond))) = 2"
    by code_simp
  have n: "\<not> (\<exists>p\<in>set (players noneAlive). alive p)"
    by code_simp
  have s: "status noneAlive = Active" by (simp add: noneAlive_def)
  show ?thesis
    using current_player_is_alive [of indexBeyond] a i
      current_player_is_alive [of noneAlive
        "\<lparr>games = [''lobby'' \<mapsto> noneAlive], eligiblePlayers = Map.empty\<rparr>" "''lobby''"
        "''alice''" True] n s
    by simp
qed

section \<open>Shoot\<close>

lemma resetLastActions_aliveUnacted: "aliveUnacted (resetLastActions g)"
  by (auto simp: aliveUnacted_def resetLastActions_def)

lemma eliminate_aliveUnacted:
  assumes "aliveUnacted g"
  shows "aliveUnacted (updatePlayer i (\<lambda>p. p\<lparr>alive := False\<rparr>) g)"
proof -
  have "set ((players g)[i := (players g ! i)\<lparr>alive := False\<rparr>])
      \<subseteq> insert ((players g ! i)\<lparr>alive := False\<rparr>) (set (players g))"
    by (rule set_update_subset_insert)
  then show ?thesis
    using assms by (auto simp: aliveUnacted_def updatePlayer_def)
qed

lemma advanceTurn_players [simp]: "players (advanceTurn g) = players g"
  by (simp add: advanceTurn_def Let_def)

text \<open>
  Claim C6. After a shoot that is not refused, bang or click, every alive player of the
  resulting game has no last action. This holds for the game left in the registry and, when
  the shoot ends the game and the game is removed, for the finished game reported in the
  game-over message.
\<close>

theorem shoot_resets_last_actions:
  assumes "\<not> rejected (fst (shoot w ch u d))"
  shows "(\<forall>g'. games (snd (shoot w ch u d)) ch = Some g' \<longrightarrow> aliveUnacted g')
       \<and> (\<forall>ms win pot g'. fst (shoot w ch u d) = Sent ms \<and> GameOver win pot g' \<in> set ms
            \<longrightarrow> aliveUnacted g')"
proof -
  let ?k = "\<lambda>cp g. updatePlayer cp (\<lambda>p. p\<lparr>alive := False\<rparr>)
               (resetLastActions (updatePlayer cp (\<lambda>p. p\<lparr>lastAction := Some Shoot\<rparr>) g))"
  have k: "aliveUnacted (?k cp g)" for cp g
    by (rule eliminate_aliveUnacted) (rule resetLastActions_aliveUnacted)
  have k1: "aliveUnacted (advanceTurn (?k cp g))" for cp g
    using k [of cp g] by (simp add: aliveUnacted_def)
  have k2: "aliveUnacted ((?k cp g)\<lparr>status := Finished, winner := x\<rparr>)" for cp g x
    using k [of cp g] by (simp add: aliveUnacted_def)
  have c: "aliveUnacted (advanceTurn ((resetLastActions g)\<lparr>potBalance := x\<rparr>))" for g x
    using resetLastActions_aliveUnacted [of g] by (simp add: aliveUnacted_def)
  have nm: "GameOver win pot g' \<notin> set (nextTurnMessage g)" for win pot g' g
    by (simp add: nextTurnMessage_def split: option.splits)
  show ?thesis
    using assms k1 k2 c
    by (auto simp: shoot_def Let_def nm split: option.splits if_splits)
qed

theorem shoot_resets_last_actions_witness:
  "\<not> rejected (fst (shoot aliceHasPassed ''lobby'' ''bob'' False))
   \<and> (\<exists>g'. games (snd (shoot aliceHasPassed ''lobby'' ''bob'' False)) ''lobby'' = Some g'
         \<and> map lastAction (players g') = [None, None] \<and> aliveUnacted g')"
proof -
  have a: "\<not> rejected (fst (shoot aliceHasPassed ''lobby'' ''bob'' False))"
    by code_simp
  have g: "games (snd (shoot aliceHasPassed ''lobby'' ''bob'' False)) ''lobby'' =
      Some \<lparr>players = [enrolled aliceTip, enrolled bobTip], potBalance = GRIT_BONUS,
            currentTurnIndex = 0, status = Active, winner = None\<rparr>"
    by code_simp
  show ?thesis
    using a g shoot_resets_last_actions [OF a] by (simp add: enrolled_def)
qed

section \<open>Pot accounting\<close>

lemma potBalance_updatePlayer [simp]: "potBalance (updatePlayer i f g) = potBalance g"
  by (simp add: updatePlayer_def)

lemma potBalance_resetLastActions [simp]: "potBalance (resetLastActions g) = potBalance g"
  by (simp add: resetLastActions_def)

lemma potBalance_advanceTurn [simp]: "potBalance (advanceTurn g) = potBalance g"
  by (simp add: advanceTurn_def Let_def)

lemma potsNonNegative_store:
  "potsNonNegative w \<Longrightarrow> 0 \<le> potBalance g \<Longrightarrow>
   potsNonNegative (w\<lparr>games := (games w)(ch \<mapsto> g)\<rparr>)"
  by (simp add: potsNonNegative_def)

lemma potsNonNegative_delete:
  "potsNonNegative w \<Longrightarrow> potsNonNegative (w\<lparr>games := (games w)(ch := None)\<rparr>)"
  by (simp add: potsNonNegative_def)

lemma potsNonNegative_eligible:
  "potsNonNegative (w\<lparr>eligiblePlayers := x\<rparr>) = potsNonNegative w"
  by (simp add: potsNonNegative_def)

lemma potsNonNegative_lookup:
  "potsNonNegative w \<Longrightarrow> games w ch = Some g \<Longrightarrow> 0 \<le> potBalance g"
  by (auto simp: potsNonNegative_def)

lemma shoot_potsNonNegative:
  assumes "potsNonNegative w"
  shows "potsNonNegative (snd (shoot w ch u d))"
proof (cases "rejected (fst (shoot w ch u d))")
  case True
  then show ?thesis using assms by (simp add: shoot_rejected_unchanged)
next
  case False
  then obtain g where g: "games w ch = Some g"
    by (cases "games w ch") (auto simp: shoot_def)
  have pos: "0 \<le> potBalance g" using assms g by (rule potsNonNegative_lookup)
  show ?thesis
    using assms g pos
    by (auto simp: shoot_def Let_def GRIT_BONUS_def
        intro!: potsNonNegative_store potsNonNegative_delete split: option.splits)
qed

lemma pass_potsNonNegative:
  assumes "potsNonNegative w"
  shows "potsNonNegative (snd (pass w ch u))"
proof (cases "rejected (fst (pass w ch u))")
  case True
  then show ?thesis using assms by (simp add: pass_rejected_unchanged)
next
  case False
  then obtain g where g: "games w ch = Some g"
    by (cases "games w ch") (auto simp: pass_def)
  have pos: "0 \<le> potBalance g" using assms g by (rule potsNonNegative_lookup)
  show ?thesis
    using assms g pos
    by (auto simp: pass_def Let_def PASS_BURN_def
        intro!: potsNonNegative_store split: option.splits)
qed

lemma startGame_potsNonNegative:
  assumes "potsNonNegative w"
  shows "potsNonNegative (snd (startGame w ch u))"
proof (cases "games w ch")
  case None
  then show ?thesis using assms by (simp add: startGame_def)
next
  case (Some g)
  have "0 \<le> potBalance g" using assms Some by (rule potsNonNegative_lookup)
  then show ?thesis
    using assms Some
    by (auto simp: startGame_def Let_def intro!: potsNonNegative_store split: option.splits)
qed

lemma resolveGame_pot: "potsNonNegative w \<Longrightarrow> 0 \<le> potBalance (resolveGame w ch)"
  by (cases "games w ch") (auto simp: resolveGame_def newGame_def potsNonNegative_def)

lemma onTip_potsNonNegative:
  assumes "potsNonNegative w" and "0 \<le> amount ev"
  shows "potsNonNegative (snd (onTip botId w ev))"
proof -
  have "0 \<le> potBalance (resolveGame w (channelId ev))"
    using assms(1) by (rule resolveGame_pot)
  then show ?thesis
    using assms
    by (auto simp: onTip_def Let_def potsNonNegative_def split: option.splits)
qed

lemma dispatch_potsNonNegative:
  "potsNonNegative w \<Longrightarrow> nonNegativeTip e \<Longrightarrow> potsNonNegative (snd (dispatch botId w e))"
  by (cases e)
    (simp_all add: onTip_potsNonNegative startGame_potsNonNegative shoot_potsNonNegative
      pass_potsNonNegative joinGame_def gameStatus_def showHelp_def split: option.splits)

lemma run_potsNonNegative:
  "potsNonNegative w \<Longrightarrow> list_all nonNegativeTip es \<Longrightarrow> potsNonNegative (run botId w es)"
  by (induction es arbitrary: w) (simp_all add: dispatch_potsNonNegative)

lemma pass_burn:
  assumes "\<not> rejected (fst (pass w ch u))"
  shows "\<exists>g0 g1. games w ch = Some g0 \<and> games (snd (pass w ch u)) ch = Some g1
     \<and> potBalance g1 = potBalance g0 - min (potBalance g0) PASS_BURN"
  using assms
  by (auto simp: pass_def Let_def min_def split: option.splits if_splits)

text \<open>
  Claim C2. Starting from a registry in which no pot is negative (the empty registry is
  one), no sequence of events whose deposits carry non-negative amounts leads to a game
  with a negative pot; the sequence may hold any shoot and pass commands, accepted or
  refused. An accepted pass takes min(potBalance, PASS_BURN) from the pot, so a pass on a
  pot below PASS_BURN leaves exactly zero.
\<close>

theorem pot_never_negative:
  "(potsNonNegative w \<and> list_all nonNegativeTip es \<longrightarrow> potsNonNegative (run botId w es))
   \<and> (\<not> rejected (fst (pass w ch u)) \<longrightarrow>
        (\<exists>g0 g1. games w ch = Some g0 \<and> games (snd (pass w ch u)) ch = Some g1
           \<and> potBalance g1 = potBalance g0 - min (potBalance g0) PASS_BURN
           \<and> (potBalance g0 < PASS_BURN \<longrightarrow> potBalance g1 = 0)))"
proof (intro conjI impI)
  assume "potsNonNegative w \<and> list_all nonNegativeTip es"
  then show "potsNonNegative (run botId w es)"
    by (simp add: run_potsNonNegative)
next
  assume "\<not> rejected (fst (pass w ch u))"
  then obtain g0 g1 where "games w ch = Some g0" "games (snd (pass w ch u)) ch = Some g1"
    "potBalance g1 = potBalance g0 - min (potBalance g0) PASS_BURN"
    using pass_burn by blast
  then show "\<exists>g0 g1. games w ch = Some g0 \<and> games (snd (pass w ch u)) ch = Some g1
           \<and> potBalance g1 = potBalance g0 - min (potBalance g0) PASS_BURN
           \<and> (potBalance g0 < PASS_BURN \<longrightarrow> potBalance g1 = 0)"
    by auto
qed

theorem pot_never_negative_witness:
  "potsNonNegative aliceHasPassed
   \<and> (\<exists>g0 g1. games twoStarted ''lobby'' = Some g0 \<and> potBalance g0 = 1000
         \<and> games (snd (pass twoStarted ''lobby'' ''alice'')) ''lobby'' = Some g1
         \<and> potBalance g1 = 0)"
proof -
  have e: "potsNonNegative emptyWorld"
    by (simp add: potsNonNegative_def emptyWorld_def)
  have l: "list_all nonNegativeTip
      [Tip aliceTip, Tip bobTip, StartGameCmd ''lobby'' ''alice'', PassCmd ''lobby'' ''alice'']"
    by (simp add: aliceTip_def bobTip_def)
  have a: "\<not> rejected (fst (pass twoStarted ''lobby'' ''alice''))"
    by code_simp
  have g: "games twoStarted ''lobby'' =
      Some \<lparr>players = [enrolled aliceTip, enrolled bobTip], potBalance = 1000,
            currentTurnIndex = 0, status = Active, winner = None\<rparr>"
    by code_simp
  have b: "(1000::int) < PASS_BURN" by (simp add: PASS_BURN_def)
  show ?thesis
    using pot_never_negative [of emptyWorld
        "[Tip aliceTip, Tip bobTip, StartGameCmd ''lobby'' ''alice'', PassCmd ''lobby'' ''alice'']"
        botAddress]
      pot_never_negative [of twoStarted _ _ "''lobby''" "''alice''"] e l a g b
    by (auto simp: aliceHasPassed_def)
qed

section \<open>Pass\<close>

text \<open>The handler's test as it is written: for an acting identity that passes the turn
  check, the pass is refused exactly on the players that the handler's filter collects
  (the alive players whose identity differs, as a string, from the acting identity).\<close>

lemma pass_test_as_written:
  assumes "games w ch = Some g" and "status g = Active"
    and "getCurrentPlayer g = Some cp"
    and "toLowerCase (userId (players g ! cp)) = toLowerCase u"
  shows "(otherPlayers g u \<noteq> []
          \<and> (\<forall>i\<in>set (otherPlayers g u). lastAction (players g ! i) = Some Pass)
        \<longrightarrow> pass w ch u = (Sent [CannotPass], w))
     \<and> \<not> rejected (fst (shoot w ch u d))
     \<and> (otherPlayers g u = [] \<longrightarrow> \<not> rejected (fst (pass w ch u)))"
proof -
  have al: "alive (players g ! cp)"
    using getCurrentPlayer_alive [OF assms(3)] by simp
  have p1: "pass w ch u = (Sent [CannotPass], w)"
    if "otherPlayers g u \<noteq> []"
      "\<forall>i\<in>set (otherPlayers g u). lastAction (players g ! i) = Some Pass"
    using that assms al by (simp add: pass_def allOthersPassed_def list_all_iff)
  have s: "\<not> rejected (fst (shoot w ch u d))"
    using assms al
    by (simp add: shoot_def Let_def nextTurnMessage_not_rejection split: option.splits)
  have p2: "\<not> rejected (fst (pass w ch u))" if "otherPlayers g u = []"
    using that assms al
    by (simp add: pass_def allOthersPassed_def Let_def split: option.splits)
  show ?thesis using p1 s p2 by blast
qed

text \<open>
  Claim C4. The claim says that the current player's pass is refused when there are other
  alive players and each of them has passed. The turn check compares the identities after
  \<open>toLowerCase\<close>, but the filter that collects the other players compares them as they
  are. Alice and Bob play, Alice has passed and it is Bob's turn. A pass under the identity
  \<open>bob\<close> is refused, as the claim says. A pass under the identity \<open>BOB\<close> passes the turn
  check (a shoot under that identity is taken as Bob's), yet the filter counts Bob himself
  among the others, Bob has not passed, and the pass is accepted although Alice, the only
  other alive player, has passed.
\<close>

theorem case_variant_id_passes_unforced:
  "games aliceHasPassed ''lobby'' =
     Some \<lparr>players = [(enrolled aliceTip)\<lparr>lastAction := Some Pass\<rparr>, enrolled bobTip],
           potBalance = 0, currentTurnIndex = 1, status = Active, winner = None\<rparr>
   \<and> getCurrentPlayer (the (games aliceHasPassed ''lobby'')) = Some 1
   \<and> fst (pass aliceHasPassed ''lobby'' ''bob'') = Sent [CannotPass]
   \<and> fst (shoot aliceHasPassed ''lobby'' ''BOB'' False) =
       Sent [Click ''BOB'' GRIT_BONUS, YourTurn ''alice'']
   \<and> otherPlayers (the (games aliceHasPassed ''lobby'')) ''BOB'' = [0, 1]
   \<and> fst (pass aliceHasPassed ''lobby'' ''BOB'') =
       Sent [Passed ''BOB'' 0 0, EveryoneChickened ''alice'']
   \<and> games (snd (pass aliceHasPassed ''lobby'' ''BOB'')) ''lobby'' =
       Some \<lparr>players = [enrolled aliceTip, enrolled bobTip],
             potBalance = 0, currentTurnIndex = 0, status = Active, winner = None\<rparr>"
  by code_simp

section \<open>The end of a game\<close>

lemma getAlivePlayers_eliminate:
  "getAlivePlayers (eliminate cp g) = filter (\<lambda>i. i \<noteq> cp) (getAlivePlayers g)"
proof -
  have "alive (players (eliminate cp g) ! i) \<longleftrightarrow> i \<noteq> cp \<and> alive (players g ! i)"
    if "i < length (players g)" for i
    using that
    by (cases "i = cp")
      (simp_all add: eliminate_def updatePlayer_def resetLastActions_def)
  moreover have "length (players (eliminate cp g)) = length (players g)"
    by (simp add: eliminate_def updatePlayer_def resetLastActions_def)
  ultimately show ?thesis
    by (auto simp: getAlivePlayers_def intro!: filter_cong)
qed

lemma userId_eliminate:
  "i < length (players g) \<Longrightarrow> userId (players (eliminate cp g) ! i) = userId (players g ! i)"
  by (cases "i = cp") (simp_all add: eliminate_def updatePlayer_def resetLastActions_def)

lemma shoot_bang:
  assumes "games w ch = Some g" and "status g = Active"
    and "getCurrentPlayer g = Some cp"
    and "toLowerCase (userId (players g ! cp)) = toLowerCase u"
  shows "shoot w ch u True =
    (case checkWinCondition (eliminate cp g) of
       Some win \<Rightarrow>
         if win \<noteq> [] then
           (Sent [Bang u (length (getAlivePlayers (eliminate cp g))) (potBalance g),
                  GameOver win (potBalance g)
                    ((eliminate cp g)\<lparr>status := Finished, winner := Some win\<rparr>)],
            w\<lparr>games := (games w)(ch := None)\<rparr>)
         else
           (Sent (Bang u (length (getAlivePlayers (eliminate cp g))) (potBalance g)
                  # nextTurnMessage (advanceTurn (eliminate cp g))),
            w\<lparr>games := (games w)(ch \<mapsto> advanceTurn (eliminate cp g))\<rparr>)
     | None \<Rightarrow>
         (Sent (Bang u (length (getAlivePlayers (eliminate cp g))) (potBalance g)
                # nextTurnMessage (advanceTurn (eliminate cp g))),
          w\<lparr>games := (games w)(ch \<mapsto> advanceTurn (eliminate cp g))\<rparr>))"
proof -
  have al: "alive (players g ! cp)"
    using getCurrentPlayer_alive [OF assms(3)] by simp
  have pot: "potBalance (eliminate cp g) = potBalance g"
    by (simp add: eliminate_def)
  show ?thesis
    using assms al pot
    by (simp add: shoot_def Let_def eliminate_def [symmetric] split: option.splits)
qed

lemma shoot_click:
  assumes "games w ch = Some g" and "status g = Active"
    and "getCurrentPlayer g = Some cp"
    and "toLowerCase (userId (players g ! cp)) = toLowerCase u"
  shows "games (snd (shoot w ch u False)) ch \<noteq> None"
proof -
  have al: "alive (players g ! cp)"
    using getCurrentPlayer_alive [OF assms(3)] by simp
  show ?thesis
    using assms al by (simp add: shoot_def Let_def)
qed

lemma checkWinCondition_eliminate:
  "checkWinCondition (eliminate cp g) =
     (case filter (\<lambda>i. i \<noteq> cp) (getAlivePlayers g) of
        [i] \<Rightarrow> Some (userId (players g ! i))
      | _ \<Rightarrow> None)"
proof -
  have "userId (players (eliminate cp g) ! i) = userId (players g ! i)"
    if "filter (\<lambda>i. i \<noteq> cp) (getAlivePlayers g) = [i]" for i
  proof -
    from that have "i \<in> set (getAlivePlayers g)"
      by (metis filter_is_subset list.set_intros(1) subsetD)
    then show ?thesis by (simp add: getAlivePlayers_mem userId_eliminate)
  qed
  then show ?thesis
    by (auto simp: checkWinCondition_def getAlivePlayers_eliminate Let_def split: list.splits)
qed

text \<open>An accepted shoot removes the game exactly when it is a bang that leaves a single
  alive player whose identity is not the empty string.\<close>

lemma shoot_ends_game_iff:
  assumes "games w ch = Some g" and "status g = Active"
    and "getCurrentPlayer g = Some cp"
    and "toLowerCase (userId (players g ! cp)) = toLowerCase u"
  shows "games (snd (shoot w ch u d)) ch = None \<longleftrightarrow>
     d \<and> (\<exists>i. filter (\<lambda>i. i \<noteq> cp) (getAlivePlayers g) = [i] \<and> userId (players g ! i) \<noteq> [])"
proof (cases d)
  case False
  then show ?thesis using shoot_click [OF assms] by simp
next
  case True
  show ?thesis
    using True
    by (auto simp: shoot_bang [OF assms] checkWinCondition_eliminate split: list.splits)
qed

text \<open>It then reports the survivor as winner, with the finished game, without advancing the
  turn, and a status query afterwards finds no game.\<close>

lemma shoot_game_over:
  assumes "games w ch = Some g" and "status g = Active"
    and "getCurrentPlayer g = Some cp"
    and "toLowerCase (userId (players g ! cp)) = toLowerCase u"
    and "filter (\<lambda>i. i \<noteq> cp) (getAlivePlayers g) = [i]" and "userId (players g ! i) \<noteq> []"
  shows "shoot w ch u True =
     (Sent [Bang u 1 (potBalance g),
            GameOver (userId (players g ! i)) (potBalance g)
              ((eliminate cp g)\<lparr>status := Finished, winner := Some (userId (players g ! i))\<rparr>)],
      w\<lparr>games := (games w)(ch := None)\<rparr>)"
    and "currentTurnIndex (eliminate cp g) = currentTurnIndex g"
    and "gameStatus (snd (shoot w ch u True)) ch =
       (Sent [NoGameStatus], snd (shoot w ch u True))"
proof -
  show s: "shoot w ch u True =
     (Sent [Bang u 1 (potBalance g),
            GameOver (userId (players g ! i)) (potBalance g)
              ((eliminate cp g)\<lparr>status := Finished, winner := Some (userId (players g ! i))\<rparr>)],
      w\<lparr>games := (games w)(ch := None)\<rparr>)"
    using assms(5,6)
    by (simp add: shoot_bang [OF assms(1-4)] checkWinCondition_eliminate
        getAlivePlayers_eliminate)
  show "currentTurnIndex (eliminate cp g) = currentTurnIndex g"
    by (simp add: eliminate_def updatePlayer_def resetLastActions_def)
  show "gameStatus (snd (shoot w ch u True)) ch =
       (Sent [NoGameStatus], snd (shoot w ch u True))"
    by (simp add: s gameStatus_def)
qed

text \<open>
  Claim C3. The claim says that a game finishes if and only if an eliminating shoot leaves
  exactly one alive player. The handler tests the survivor's identity for truthiness: when
  the sole survivor's identity is the empty string, the game does not finish. Bob and a
  player whose identity is the empty string are enrolled and the game is started; Bob
  shoots and is eliminated. One alive player remains, yet the game stays in the registry
  with status active and no winner, the turn is advanced, and a status query still finds
  the game. (\<open>shoot_ends_game_iff\<close> and \<open>shoot_game_over\<close> above show that for a survivor
  with a non-empty identity the game ends as the claim says.)
\<close>

theorem nameless_survivor_does_not_win:
  "length (getAlivePlayers (eliminate 0 (the (games bobAndNameless ''lobby'')))) = 1
   \<and> fst (shoot bobAndNameless ''lobby'' ''bob'' True) = Sent [Bang ''bob'' 1 400, YourTurn []]
   \<and> games (snd (shoot bobAndNameless ''lobby'' ''bob'' True)) ''lobby'' =
       Some \<lparr>players = [(enrolled bobTip)\<lparr>alive := False\<rparr>, enrolled namelessTip],
             potBalance = 400, currentTurnIndex = 0, status = Active, winner = None\<rparr>
   \<and> fst (gameStatus (snd (shoot bobAndNameless ''lobby'' ''bob'' True)) ''lobby'') =
       Sent [StatusReport
         \<lparr>players = [(enrolled bobTip)\<lparr>alive := False\<rparr>, enrolled namelessTip],
          potBalance = 400, currentTurnIndex = 0, status = Active, winner = None\<rparr>]"
  by code_simp

section \<open>The turn after an elimination\<close>

lemma distinct_getAlivePlayers: "distinct (getAlivePlayers g)"
  by (simp add: getAlivePlayers_def)

lemma filter_neq_nth:
  assumes "distinct xs" and "k < length xs"
  shows "filter (\<lambda>x. x \<noteq> xs ! k) xs = take k xs @ drop (Suc k) xs"
proof -
  have split: "xs = take k xs @ xs ! k # drop (Suc k) xs"
    using assms(2) by (rule id_take_nth_drop)
  have "distinct (take k xs @ xs ! k # drop (Suc k) xs)"
    using assms(1) split by simp
  then have out: "xs ! k \<notin> set (take k xs)" "xs ! k \<notin> set (drop (Suc k) xs)"
    by auto
  have l: "filter (\<lambda>x. x \<noteq> xs ! k) (take k xs) = take k xs"
    using out(1) by (auto intro: filter_True)
  have r: "filter (\<lambda>x. x \<noteq> xs ! k) (drop (Suc k) xs) = drop (Suc k) xs"
    using out(2) by (auto intro: filter_True)
  have "filter (\<lambda>x. x \<noteq> xs ! k) (take k xs @ xs ! k # drop (Suc k) xs)
      = take k xs @ drop (Suc k) xs"
    by (simp add: l r)
  then show ?thesis using split by simp
qed

lemma nth_without:
  assumes "k < length xs" and "j < length xs - 1"
  shows "(take k xs @ drop (Suc k) xs) ! j = (if j < k then xs ! j else xs ! Suc j)"
  using assms by (auto simp: nth_append min_def)

lemma getAlivePlayers_advanceTurn [simp]:
  "getAlivePlayers (advanceTurn g) = getAlivePlayers g"
  by (simp add: getAlivePlayers_def)

lemma skip_index:
  assumes "k < Suc m" and "2 \<le> m"
  shows "(if Suc k mod m < k then Suc k mod m else Suc (Suc k mod m)) = (k + 2) mod Suc m"
proof -
  consider "k + 2 < Suc m" | "k + 2 = Suc m" | "k = m"
    using assms by linarith
  then show ?thesis
  proof cases
    case 1
    then show ?thesis by simp
  next
    case 2
    then have "Suc k = m" by simp
    then show ?thesis using assms by auto
  next
    case 3
    have "Suc m mod m = 1 mod m" by (metis Suc_eq_plus1 mod_add_self1)
    then have "Suc m mod m = 1" using assms by simp
    moreover have "(m + 2) mod Suc m = 1 mod Suc m"
      by (metis Suc_eq_plus1 add_2_eq_Suc' add_Suc_right mod_add_self1 add.commute plus_1_eq_Suc)
    ultimately show ?thesis using 3 assms by simp
  qed
qed

text \<open>With a turn index in range and at least three alive players, a bang hands the turn to
  the alive player two places after the shooter: the one in between is passed over.\<close>

lemma elimination_skips_one:
  assumes "games w ch = Some g" and "status g = Active"
    and "0 \<le> currentTurnIndex g"
    and "currentTurnIndex g < int (length (getAlivePlayers g))"
    and "3 \<le> length (getAlivePlayers g)"
    and "toLowerCase (userId (players g ! (getAlivePlayers g ! nat (currentTurnIndex g))))
           = toLowerCase u"
  shows "\<exists>g'. games (snd (shoot w ch u True)) ch = Some g'
     \<and> getCurrentPlayer g' =
         Some (getAlivePlayers g !
                 ((nat (currentTurnIndex g) + 2) mod length (getAlivePlayers g)))"
proof -
  define A where "A = getAlivePlayers g"
  define k where "k = nat (currentTurnIndex g)"
  define m where "m = length A - 1"
  define B where "B = take k A @ drop (Suc k) A"
  have n: "length A = Suc m" using assms(5) by (simp add: m_def A_def)
  have m2: "2 \<le> m" using assms(5) by (simp add: m_def A_def)
  have kn: "k < Suc m" using assms(3,4) n by (simp add: k_def A_def)
  have idx: "currentTurnIndex g = int k" using assms(3) by (simp add: k_def)
  have ne: "getAlivePlayers g \<noteq> []" using n by (auto simp: A_def)
  have "int k mod int (Suc m) = int k" using kn by simp
  then have cur: "getCurrentPlayer g = Some (A ! k)"
    using getCurrentPlayer_nonneg [OF ne assms(3)] n
    by (simp add: A_def [symmetric] idx del: of_nat_Suc)
  have low: "toLowerCase (userId (players g ! (A ! k))) = toLowerCase u"
    using assms(6) by (simp add: A_def k_def)
  have "filter (\<lambda>i. i \<noteq> A ! k) A = B"
    unfolding B_def using distinct_getAlivePlayers [of g] kn n
    by (intro filter_neq_nth) (simp_all add: A_def)
  then have B: "getAlivePlayers (eliminate (A ! k) g) = B"
    by (simp add: getAlivePlayers_eliminate A_def)
  have lenB: "length B = m"
    using kn n by (simp add: B_def min_def)
  have nowin: "checkWinCondition (eliminate (A ! k) g) = None"
    using m2 by (simp add: checkWinCondition_def B lenB Let_def)
  let ?g' = "advanceTurn (eliminate (A ! k) g)"
  have stored: "games (snd (shoot w ch u True)) ch = Some ?g'"
    by (simp add: shoot_bang [OF assms(1,2) cur low] nowin)
  have idxE: "currentTurnIndex (eliminate (A ! k) g) = int k"
    by (simp add: eliminate_def updatePlayer_def resetLastActions_def idx)
  have step: "jsRem (int k + 1) (int m) = int (Suc k mod m)"
    by (simp add: jsRem_def zmod_int add.commute)
  have Bne: "B \<noteq> []" using lenB m2 by auto
  have idx': "currentTurnIndex ?g' = int (Suc k mod m)"
    using Bne by (simp add: advanceTurn_def Let_def B lenB idxE step)
  have again: "jsRem (int (Suc k mod m)) (int m) = int (Suc k mod m)"
    by (simp add: jsRem_def zmod_int [symmetric])
  have inr: "Suc k mod m < m" using m2 by simp
  have "getCurrentPlayer ?g' = Some (B ! (Suc k mod m))"
    using Bne inr by (simp add: getCurrentPlayer_def Let_def B lenB idx' again)
  moreover have "B ! (Suc k mod m) =
      A ! (if Suc k mod m < k then Suc k mod m else Suc (Suc k mod m))"
    using nth_without [of k A "Suc k mod m"] kn n inr
    by (simp add: B_def)
  ultimately have "getCurrentPlayer ?g' = Some (A ! ((k + 2) mod Suc m))"
    using skip_index [OF kn m2] by simp
  then show ?thesis
    using stored n by (simp add: A_def [symmetric] k_def [symmetric])
qed

text \<open>That position is never the one right after the shooter.\<close>

lemma skipped_index_differs:
  fixes k n :: nat
  assumes "3 \<le> n"
  shows "(k + 2) mod n \<noteq> (k + 1) mod n"
proof
  assume "(k + 2) mod n = (k + 1) mod n"
  then have "n dvd (k + 2) - (k + 1)"
    by (simp add: mod_eq_dvd_iff_nat)
  then have "n dvd 1" by simp
  then show False using assms by simp
qed

text \<open>
  Claim C1. The claim says that after the acting player is eliminated and at least two
  players remain, the turn goes to the next alive player after the eliminated one: with
  Alice, Bob and Carol alive and Alice eliminated, to Bob. The handler removes Alice from
  the alive players, which already moves Bob to Alice's position, and then still adds one
  to the turn index: the turn goes to Carol and Bob is skipped. The same happens in the
  spec's scenario (Alice survives a shot, Bob and Carol pass, Alice shoots and is
  eliminated), and by \<open>elimination_skips_one\<close> in every game with at least three alive
  players.
\<close>

theorem elimination_skips_next_player:
  "map (\<lambda>p. (userId p, alive p)) (players (the (games threeStarted ''lobby''))) =
      [(''alice'', True), (''bob'', True), (''carol'', True)]
   \<and> getCurrentPlayer (the (games threeStarted ''lobby'')) = Some 0
   \<and> fst (shoot threeStarted ''lobby'' ''alice'' True) =
       Sent [Bang ''alice'' 2 1000, YourTurn ''carol'']
   \<and> map_option getCurrentPlayer (games (snd (shoot threeStarted ''lobby'' ''alice'' True)) ''lobby'')
       = Some (Some 2)
   \<and> fst (shoot aliceBackInTurn ''lobby'' ''alice'' True) =
       Sent [Bang ''alice'' 2 1000, YourTurn ''carol'']"
  by code_simp

end
